theory Spec2Isabelle
  imports Main "HOL-Library.Sublist"
begin

section \<open>Python primitives used by app.py\<close>

text \<open>
  Python integers are unbounded, so they are \<open>int\<close>. A string is a list of characters;
  \<open>len\<close> is \<open>length\<close>. The FASTA sequences the application loads are ASCII text.
\<close>

datatype py_error = IndexError

text \<open>
  \<^verbatim>\<open>s[i]\<close> for an index produced by \<^verbatim>\<open>range(n)\<close> (so never negative): Python raises
  IndexError past the end.
\<close>

definition py_getitem :: "'a list \<Rightarrow> nat \<Rightarrow> py_error + 'a" where
  "py_getitem xs i = (if i < length xs then Inr (xs ! i) else Inl IndexError)"

text \<open>
  \<^verbatim>\<open>s[a:b]\<close> with step 1: a negative bound counts from the end, and both bounds are
  then clamped into \<open>[0, len(s)]\<close>; the slice never raises and is empty when the
  adjusted stop is not beyond the adjusted start.
\<close>

definition py_slice_bound :: "int \<Rightarrow> int \<Rightarrow> int" where
  "py_slice_bound n i = (if i < 0 then max 0 (i + n) else min i n)"

definition py_slice :: "'a list \<Rightarrow> int \<Rightarrow> int \<Rightarrow> 'a list" where
  "py_slice xs a b =
     (let n = int (length xs);
          lo = py_slice_bound n a;
          hi = py_slice_bound n b
      in take (nat (hi - lo)) (drop (nat lo) xs))"

section \<open>Tab 1: the position slider and the guide window (app.py, lines 110-137)\<close>

text \<open>
  \<^verbatim>\<open>
  genome_seq = load_sequence(...)
  if not genome_seq:
      return
  max_pos = len(genome_seq) - 21
  if max_pos < 1:
      max_pos = 1
  default_position = min(1000, max_pos)
  position = st.slider(..., 1, max_pos, default_position)
  pos0 = position - 1
  guide_start = min(pos0, max(0, len(genome_seq) - 20))
  guide_end = min(len(genome_seq), guide_start + 20)
  guide_seq = genome_seq[guide_start:guide_end]
  if len(guide_seq) < 20:
      st.warning(...)
  \<close>
\<close>

definition max_pos :: "string \<Rightarrow> int" where
  "max_pos genome_seq =
     (let m = int (length genome_seq) - 21 in if m < 1 then 1 else m)"

definition default_position :: "string \<Rightarrow> int" where
  "default_position genome_seq = min 1000 (max_pos genome_seq)"

text \<open>The slider hands back a position between its two bounds, \<open>1\<close> and \<open>max_pos\<close>.\<close>

definition slider_offers :: "string \<Rightarrow> int \<Rightarrow> bool" where
  "slider_offers genome_seq position = (1 \<le> position \<and> position \<le> max_pos genome_seq)"

definition pos0 :: "int \<Rightarrow> int" where
  "pos0 position = position - 1"

definition guide_start :: "string \<Rightarrow> int \<Rightarrow> int" where
  "guide_start genome_seq position =
     min (pos0 position) (max 0 (int (length genome_seq) - 20))"

definition guide_end :: "string \<Rightarrow> int \<Rightarrow> int" where
  "guide_end genome_seq position =
     min (int (length genome_seq)) (guide_start genome_seq position + 20)"

definition guide_seq :: "string \<Rightarrow> int \<Rightarrow> string" where
  "guide_seq genome_seq position =
     py_slice genome_seq (guide_start genome_seq position) (guide_end genome_seq position)"

definition short_guide_warning :: "string \<Rightarrow> int \<Rightarrow> bool" where
  "short_guide_warning genome_seq position = (length (guide_seq genome_seq position) < 20)"

text \<open>
  The sidebar form as a whole: it returns without a guide when the sequence could not be
  loaded (\<open>None\<close>) or is empty, and otherwise yields the window and the guide.
\<close>

definition sidebar_guide :: "string option \<Rightarrow> int \<Rightarrow> (int \<times> int \<times> string) option" where
  "sidebar_guide loaded position =
     (case loaded of
        None \<Rightarrow> None
      | Some genome_seq \<Rightarrow>
          if genome_seq = [] then None
          else Some (guide_start genome_seq position,
                     guide_end genome_seq position,
                     guide_seq genome_seq position))"

section \<open>Tab 2: the positional diff (app.py, lines 250-263)\<close>

text \<open>
  \<^verbatim>\<open>
  if not base or not target:
      st.warning(...)
      return
  compare_length = min(500, len(base), len(target))
  highlighted = []
  for i in range(compare_length):
      if base[i] != target[i]:
          highlighted.append(f"<span style='color:red; font-weight:bold;'>{target[i]}</span>")
      else:
          highlighted.append(target[i])
  highlighted_html = "".join(highlighted)
  if len(base) > compare_length:
      highlighted_html += "..."
  \<close>
  The two literal halves of the f-string are \<open>span_open\<close> and \<open>span_close\<close>; \<open>marker\<close> is
  the string one iteration appends. The loop reads \<^verbatim>\<open>base[i]\<close> and \<^verbatim>\<open>target[i]\<close>, which
  raise past the end, so it returns a sum.
\<close>

definition compare_length :: "string \<Rightarrow> string \<Rightarrow> nat" where
  "compare_length base target = min 500 (min (length base) (length target))"

definition span_open :: string where
  "span_open = ''<span style='color:red; font-weight:bold;'>''"

definition span_close :: string where
  "span_close = ''</span>''"

definition mismatch_marker :: "char \<Rightarrow> string" where
  "mismatch_marker c = span_open @ [c] @ span_close"

definition match_marker :: "char \<Rightarrow> string" where
  "match_marker c = [c]"

definition marker :: "char \<Rightarrow> char \<Rightarrow> string" where
  "marker b t = (if b \<noteq> t then mismatch_marker t else match_marker t)"

fun highlight_loop :: "string \<Rightarrow> string \<Rightarrow> nat list \<Rightarrow> string list \<Rightarrow> py_error + string list" where
  "highlight_loop base target [] highlighted = Inr highlighted"
| "highlight_loop base target (i # rest) highlighted =
     (case py_getitem base i of
        Inl e \<Rightarrow> Inl e
      | Inr b \<Rightarrow>
          (case py_getitem target i of
             Inl e \<Rightarrow> Inl e
           | Inr t \<Rightarrow> highlight_loop base target rest (highlighted @ [marker b t])))"

definition highlighted :: "string \<Rightarrow> string \<Rightarrow> py_error + string list" where
  "highlighted base target =
     highlight_loop base target [0..<compare_length base target] []"

definition highlighted_html :: "string \<Rightarrow> string \<Rightarrow> py_error + string" where
  "highlighted_html base target =
     (case highlighted base target of
        Inl e \<Rightarrow> Inl e
      | Inr hl \<Rightarrow>
          Inr (if length base > compare_length base target
               then concat hl @ ''...'' else concat hl))"

text \<open>The guard of line 250 around the diff: nothing is rendered for an empty sequence.\<close>

definition compare_view :: "string \<Rightarrow> string \<Rightarrow> (py_error + string) option" where
  "compare_view base target =
     (if base = [] \<or> target = [] then None else Some (highlighted_html base target))"

text \<open>
  The character a marker carries, that is the marker without the emphasis markup around
  it (the rendering layer's view of a marker; not a function of app.py).
\<close>

definition carried_text :: "string \<Rightarrow> string" where
  "carried_text m =
     (if prefix span_open m \<and> suffix span_close m
         \<and> length span_open + length span_close \<le> length m
      then take (length m - length span_open - length span_close)
                (drop (length span_open) m)
      else m)"

section \<open>Properties of the guide window\<close>

lemma py_slice_in_bounds:
  assumes "0 \<le> a" and "a \<le> b" and "b \<le> int (length xs)"
  shows "py_slice xs a b = take (nat (b - a)) (drop (nat a) xs)"
    and "length (py_slice xs a b) = nat (b - a)"
  using assms by (auto simp: py_slice_def py_slice_bound_def Let_def)

lemma guide_start_nonneg: "1 \<le> position \<Longrightarrow> 0 \<le> guide_start genome_seq position"
  by (simp add: guide_start_def pos0_def)

lemma guide_start_le_end: "guide_start genome_seq position \<le> guide_end genome_seq position"
  by (auto simp: guide_end_def guide_start_def)

lemma guide_end_le_len: "guide_end genome_seq position \<le> int (length genome_seq)"
  by (simp add: guide_end_def)

lemma guide_width_le_20:
  "guide_end genome_seq position - guide_start genome_seq position \<le> 20"
  by (simp add: guide_end_def)

text \<open>
  Claim C3. For every non-empty genome and every 1-based cut position of at least 1, the
  window satisfies \<open>0 \<le> guide_start \<le> guide_end \<le> len(genome)\<close> and
  \<open>guide_end - guide_start \<le> 20\<close>; the form does produce a guide, and the slice
  \<open>genome[guide_start:guide_end]\<close> is exactly the in-bounds stretch between the two
  bounds, whatever the position (positions beyond the slider's maximum included).
\<close>

theorem guide_window_in_bounds:
  assumes "genome_seq \<noteq> []" and "1 \<le> position"
  shows "0 \<le> guide_start genome_seq position
       \<and> guide_start genome_seq position \<le> guide_end genome_seq position
       \<and> guide_end genome_seq position \<le> int (length genome_seq)
       \<and> guide_end genome_seq position - guide_start genome_seq position \<le> 20
       \<and> guide_seq genome_seq position =
           take (nat (guide_end genome_seq position - guide_start genome_seq position))
                (drop (nat (guide_start genome_seq position)) genome_seq)
       \<and> int (length (guide_seq genome_seq position)) =
           guide_end genome_seq position - guide_start genome_seq position
       \<and> sidebar_guide (Some genome_seq) position =
           Some (guide_start genome_seq position, guide_end genome_seq position,
                 guide_seq genome_seq position)"
proof -
  have s0: "0 \<le> guide_start genome_seq position"
    using assms(2) by (rule guide_start_nonneg)
  have se: "guide_start genome_seq position \<le> guide_end genome_seq position"
    by (rule guide_start_le_end)
  have el: "guide_end genome_seq position \<le> int (length genome_seq)"
    by (rule guide_end_le_len)
  have w: "guide_end genome_seq position - guide_start genome_seq position \<le> 20"
    by (rule guide_width_le_20)
  have sl: "guide_seq genome_seq position =
      take (nat (guide_end genome_seq position - guide_start genome_seq position))
           (drop (nat (guide_start genome_seq position)) genome_seq)"
    unfolding guide_seq_def using s0 se el by (rule py_slice_in_bounds(1))
  have ln: "int (length (guide_seq genome_seq position)) =
      guide_end genome_seq position - guide_start genome_seq position"
    unfolding guide_seq_def using py_slice_in_bounds(2)[OF s0 se el] se by simp
  have sg: "sidebar_guide (Some genome_seq) position =
      Some (guide_start genome_seq position, guide_end genome_seq position,
            guide_seq genome_seq position)"
    using assms(1) by (simp add: sidebar_guide_def)
  from s0 se el w sl ln sg show ?thesis by blast
qed

theorem guide_window_in_bounds_witness:
  "''ACGTACGTACGTACGTACGTACGTA'' \<noteq> [] \<and> (1::int) \<le> 40
   \<and> guide_start ''ACGTACGTACGTACGTACGTACGTA'' 40 = 5
   \<and> guide_end ''ACGTACGTACGTACGTACGTACGTA'' 40 = 25
   \<and> guide_seq ''ACGTACGTACGTACGTACGTACGTA'' 40 = ''CGTACGTACGTACGTACGTA''
   \<and> int (length (guide_seq ''ACGTACGTACGTACGTACGTACGTA'' 40)) = 20"
  using guide_window_in_bounds [of "''ACGTACGTACGTACGTACGTACGTA''" 40]
  by (simp add: guide_start_def guide_end_def pos0_def)

lemma guide_seq_length:
  assumes "1 \<le> position"
  shows "int (length (guide_seq genome_seq position)) =
         guide_end genome_seq position - guide_start genome_seq position"
proof -
  have "length (guide_seq genome_seq position) =
        nat (guide_end genome_seq position - guide_start genome_seq position)"
    unfolding guide_seq_def
    by (rule py_slice_in_bounds(2)
          [OF guide_start_nonneg [OF assms] guide_start_le_end guide_end_le_len])
  then show ?thesis using guide_start_le_end [of genome_seq position] by simp
qed

lemma guide_seq_take_drop:
  assumes "1 \<le> position"
  shows "guide_seq genome_seq position =
         take (nat (guide_end genome_seq position - guide_start genome_seq position))
              (drop (nat (guide_start genome_seq position)) genome_seq)"
  unfolding guide_seq_def
  by (rule py_slice_in_bounds(1)
        [OF guide_start_nonneg [OF assms] guide_start_le_end guide_end_le_len])

lemma max_pos_cases:
  "max_pos genome_seq =
     (if 22 \<le> length genome_seq then int (length genome_seq) - 21 else 1)"
  by (simp add: max_pos_def Let_def)

lemma max_pos_ge_1: "1 \<le> max_pos genome_seq"
  by (simp add: max_pos_def Let_def)

subsection \<open>The slider's range\<close>

text \<open>
  Claim C5, as stated, fails on the code: the claimed upper bound is \<open>len(sequence) - 20\<close>,
  but for a sequence of 100 bases position 80 lies in the claimed range and the slider does
  not offer it (its maximum is 79).
\<close>

theorem slider_upper_bound_counterexample:
  "(1::int) \<le> 80
   \<and> 80 \<le> int (length (replicate 100 (CHR ''A''))) - 20
   \<and> \<not> slider_offers (replicate 100 (CHR ''A'')) 80
   \<and> max_pos (replicate 100 (CHR ''A'')) = 79"
  by (simp add: slider_offers_def max_pos_def Let_def)

text \<open>
  Claim C5, amended. The selectable 1-based cut positions are
  \<open>1 \<le> position \<le> len(sequence) - 21\<close> when the sequence has at least 22 bases, and the
  upper bound degrades to 1 when the sequence is shorter than 22 bases (so in particular
  when it is shorter than 21).
\<close>

theorem slider_range:
  "max_pos genome_seq =
     (if 22 \<le> length genome_seq then int (length genome_seq) - 21 else 1)
   \<and> slider_offers genome_seq position =
       (1 \<le> position \<and>
        position \<le> (if 22 \<le> length genome_seq then int (length genome_seq) - 21 else 1))
   \<and> (length genome_seq < 21 \<longrightarrow> max_pos genome_seq = 1)"
  by (simp add: slider_offers_def max_pos_cases)

theorem slider_range_witness:
  "max_pos (replicate 100 (CHR ''A'')) = 79
   \<and> slider_offers (replicate 100 (CHR ''A'')) 79
   \<and> length ''ACGTACGTAC'' < 21 \<and> max_pos ''ACGTACGTAC'' = 1
   \<and> slider_offers ''ACGTACGTAC'' 1 \<and> \<not> slider_offers ''ACGTACGTAC'' 2"
  using slider_range [of "replicate 100 (CHR ''A'')" 79]
        slider_range [of "''ACGTACGTAC''" 1] slider_range [of "''ACGTACGTAC''" 2]
  by simp

subsection \<open>The window at the slider's maximum\<close>

text \<open>
  Claim C4, as stated, fails on the code: for a genome of 100 bases the slider's maximum
  is 79 and the window there is \<open>[78, 98)\<close>, which ends two bases before the end of the
  genome. (At position \<open>len(genome) - 20 = 80\<close> the window ends at 99, not at 100 either.)
\<close>

theorem window_at_max_position_counterexample:
  "20 \<le> length (replicate 100 (CHR ''A''))
   \<and> max_pos (replicate 100 (CHR ''A'')) = 79
   \<and> guide_start (replicate 100 (CHR ''A'')) (max_pos (replicate 100 (CHR ''A''))) = 78
   \<and> guide_end (replicate 100 (CHR ''A'')) (max_pos (replicate 100 (CHR ''A''))) = 98
   \<and> guide_end (replicate 100 (CHR ''A'')) (max_pos (replicate 100 (CHR ''A'')))
       \<noteq> int (length (replicate 100 (CHR ''A'')))
   \<and> guide_end (replicate 100 (CHR ''A'')) (int (length (replicate 100 (CHR ''A''))) - 20)
       = 99"
  by (simp add: max_pos_def guide_end_def guide_start_def pos0_def Let_def)

text \<open>
  Claim C4, amended. For every genome of length at least 20, the maximum position the
  slider allows yields a guide window of exactly length 20 that lies inside the genome and
  ends at \<open>max(20, len(genome) - 2)\<close>; it ends at \<open>len(genome)\<close> only when the genome has
  exactly 20 bases.
\<close>

theorem window_at_max_position:
  assumes "20 \<le> length genome_seq"
  shows "guide_end genome_seq (max_pos genome_seq)
           - guide_start genome_seq (max_pos genome_seq) = 20
       \<and> length (guide_seq genome_seq (max_pos genome_seq)) = 20
       \<and> guide_start genome_seq (max_pos genome_seq) = max_pos genome_seq - 1
       \<and> guide_end genome_seq (max_pos genome_seq) = max 20 (int (length genome_seq) - 2)
       \<and> guide_end genome_seq (max_pos genome_seq) \<le> int (length genome_seq)
       \<and> (guide_end genome_seq (max_pos genome_seq) = int (length genome_seq))
           = (length genome_seq = 20)"
proof -
  have st: "guide_start genome_seq (max_pos genome_seq) = max_pos genome_seq - 1"
    using assms by (auto simp: guide_start_def pos0_def max_pos_cases)
  have en: "guide_end genome_seq (max_pos genome_seq) = max 20 (int (length genome_seq) - 2)"
    unfolding guide_end_def st using assms by (auto simp: max_pos_cases)
  have wd: "guide_end genome_seq (max_pos genome_seq)
              - guide_start genome_seq (max_pos genome_seq) = 20"
    unfolding en st using assms by (auto simp: max_pos_cases)
  have ln: "length (guide_seq genome_seq (max_pos genome_seq)) = 20"
    using guide_seq_length [OF max_pos_ge_1 [of genome_seq], of genome_seq] wd by simp
  have le: "guide_end genome_seq (max_pos genome_seq) \<le> int (length genome_seq)"
    by (rule guide_end_le_len)
  have eq: "(guide_end genome_seq (max_pos genome_seq) = int (length genome_seq))
              = (length genome_seq = 20)"
    using assms by (auto simp: en)
  from wd ln st en le eq show ?thesis by blast
qed

theorem window_at_max_position_witness:
  "20 \<le> length (replicate 100 (CHR ''A''))
   \<and> guide_start (replicate 100 (CHR ''A'')) (max_pos (replicate 100 (CHR ''A''))) = 78
   \<and> guide_end (replicate 100 (CHR ''A'')) (max_pos (replicate 100 (CHR ''A''))) = 98
   \<and> length (guide_seq (replicate 100 (CHR ''A'')) (max_pos (replicate 100 (CHR ''A'')))) = 20"
  using window_at_max_position [of "replicate 100 (CHR ''A'')"]
  by (simp add: max_pos_def Let_def)

subsection \<open>The length of the window\<close>

text \<open>
  Claim C6. For every non-empty genome and every cut position of at least 1, the guide has
  exactly 20 bases unless fewer than 20 bases of the genome remain from the clamped start,
  in which case it is shorter (the remaining bases, and the warning of line 136 is shown);
  for a genome of length 10 every such position yields the whole genome as the guide.
\<close>

theorem guide_window_length:
  assumes "genome_seq \<noteq> []" and "1 \<le> position"
  shows "int (length (guide_seq genome_seq position)) =
           min 20 (int (length genome_seq) - guide_start genome_seq position)
       \<and> (\<not> int (length genome_seq) - guide_start genome_seq position < 20
            \<longrightarrow> length (guide_seq genome_seq position) = 20
              \<and> \<not> short_guide_warning genome_seq position)
       \<and> (int (length genome_seq) - guide_start genome_seq position < 20
            \<longrightarrow> length (guide_seq genome_seq position) < 20
              \<and> length genome_seq < 20
              \<and> guide_seq genome_seq position = genome_seq
              \<and> short_guide_warning genome_seq position)
       \<and> (length genome_seq = 10
            \<longrightarrow> guide_start genome_seq position = 0
              \<and> guide_end genome_seq position = 10
              \<and> guide_seq genome_seq position = genome_seq)"
proof -
  have ln: "int (length (guide_seq genome_seq position)) =
            min 20 (int (length genome_seq) - guide_start genome_seq position)"
    using guide_seq_length [OF assms(2), of genome_seq] by (auto simp: guide_end_def)
  have full: "\<not> int (length genome_seq) - guide_start genome_seq position < 20
              \<Longrightarrow> length (guide_seq genome_seq position) = 20
                \<and> \<not> short_guide_warning genome_seq position"
    using ln by (auto simp: short_guide_warning_def)
  have short: "guide_start genome_seq position = 0
               \<and> guide_end genome_seq position = int (length genome_seq)
               \<and> guide_seq genome_seq position = genome_seq"
    if "length genome_seq < 20"
  proof -
    have s: "guide_start genome_seq position = 0"
      using that assms(2) by (simp add: guide_start_def pos0_def)
    have e: "guide_end genome_seq position = int (length genome_seq)"
      using that by (simp add: guide_end_def s)
    have "guide_seq genome_seq position = genome_seq"
      using guide_seq_take_drop [OF assms(2), of genome_seq] by (simp add: s e)
    with s e show ?thesis by simp
  qed
  have lt20: "length genome_seq < 20"
    if "int (length genome_seq) - guide_start genome_seq position < 20"
    using that by (auto simp: guide_start_def split: if_splits)
  have degraded: "int (length genome_seq) - guide_start genome_seq position < 20
              \<Longrightarrow> length (guide_seq genome_seq position) < 20
                \<and> length genome_seq < 20
                \<and> guide_seq genome_seq position = genome_seq
                \<and> short_guide_warning genome_seq position"
    using lt20 short by (auto simp: short_guide_warning_def)
  have ten: "length genome_seq = 10
              \<Longrightarrow> guide_start genome_seq position = 0
                \<and> guide_end genome_seq position = 10
                \<and> guide_seq genome_seq position = genome_seq"
    using short by simp
  from ln full degraded ten show ?thesis by blast
qed

theorem guide_window_length_witness:
  "''ACGTACGTAC'' \<noteq> [] \<and> (1::int) \<le> 7 \<and> length ''ACGTACGTAC'' = 10
   \<and> guide_seq ''ACGTACGTAC'' 7 = ''ACGTACGTAC''
   \<and> short_guide_warning ''ACGTACGTAC'' 7
   \<and> ''ACGTACGTACGTACGTACGTACGTA'' \<noteq> [] \<and> (1::int) \<le> 3
   \<and> \<not> int (length ''ACGTACGTACGTACGTACGTACGTA'')
          - guide_start ''ACGTACGTACGTACGTACGTACGTA'' 3 < 20
   \<and> length (guide_seq ''ACGTACGTACGTACGTACGTACGTA'' 3) = 20"
  using guide_window_length [of "''ACGTACGTAC''" 7]
        guide_window_length [of "''ACGTACGTACGTACGTACGTACGTA''" 3]
  by (simp add: guide_start_def pos0_def)

section \<open>Properties of the positional diff\<close>

lemma highlight_loop_total:
  assumes "\<forall>i \<in> set idxs. i < length base \<and> i < length target"
  shows "highlight_loop base target idxs acc =
         Inr (acc @ map (\<lambda>i. marker (base ! i) (target ! i)) idxs)"
  using assms by (induction idxs arbitrary: acc) (simp_all add: py_getitem_def)

lemma highlighted_eq:
  "highlighted base target =
   Inr (map (\<lambda>i. marker (base ! i) (target ! i)) [0..<compare_length base target])"
  unfolding highlighted_def
  by (subst highlight_loop_total) (auto simp: compare_length_def)

lemma highlighted_html_eq:
  "highlighted_html base target =
   Inr (concat (map (\<lambda>i. marker (base ! i) (target ! i)) [0..<compare_length base target])
        @ (if compare_length base target < length base then ''...'' else []))"
  by (simp add: highlighted_html_def highlighted_eq)

lemma compare_view_renders:
  assumes "base \<noteq> []" and "target \<noteq> []"
  shows "\<exists>html. compare_view base target = Some (Inr html)"
  using assms by (simp add: compare_view_def highlighted_html_eq)

lemma span_open_length: "length span_open = 43"
  by (simp add: span_open_def)

lemma span_close_length: "length span_close = 7"
  by (simp add: span_close_def)

lemma mismatch_marker_length: "length (mismatch_marker c) = 51"
  by (simp add: mismatch_marker_def span_open_length span_close_length)

lemma mismatch_neq_match: "mismatch_marker c \<noteq> match_marker d"
proof
  assume "mismatch_marker c = match_marker d"
  then have "length (mismatch_marker c) = length (match_marker d)" by simp
  then show False by (simp add: mismatch_marker_length match_marker_def)
qed

lemma mismatch_marker_inj: "mismatch_marker c = mismatch_marker d \<Longrightarrow> c = d"
  by (simp add: mismatch_marker_def)

lemma match_marker_inj: "match_marker c = match_marker d \<Longrightarrow> c = d"
  by (simp add: match_marker_def)

lemma carried_text_mismatch: "carried_text (mismatch_marker c) = [c]"
proof -
  have p: "prefix span_open (mismatch_marker c)"
    by (simp add: mismatch_marker_def)
  have s: "suffix span_close (mismatch_marker c)"
    unfolding mismatch_marker_def by (rule suffixI [of _ "span_open @ [c]"]) simp
  have l: "length span_open + length span_close \<le> length (mismatch_marker c)"
    by (simp add: mismatch_marker_def)
  have "take (length (mismatch_marker c) - length span_open - length span_close)
             (drop (length span_open) (mismatch_marker c)) = [c]"
    by (simp add: mismatch_marker_def)
  with p s l show ?thesis by (simp add: carried_text_def)
qed

lemma carried_text_match: "carried_text (match_marker c) = [c]"
proof -
  have "\<not> length span_open + length span_close \<le> length (match_marker c)"
    by (simp add: match_marker_def span_open_length)
  then show ?thesis by (simp add: carried_text_def match_marker_def)
qed

lemma carried_text_marker: "carried_text (marker b t) = [t]"
  by (simp add: marker_def carried_text_mismatch carried_text_match)


text \<open>
  Claim C7. For every base and target, the loop raises nothing and emits exactly
  \<open>n = min(500, len(base), len(target))\<close> markers, and the rendered string is the markers
  joined, followed by the truncation marker \<open>...\<close> if and only if \<open>len(base) > n\<close>; for two
  sequences of 600 characters that is 500 markers and the truncation marker.
\<close>

theorem diff_marker_count:
  "\<exists>hl. highlighted base target = Inr hl
     \<and> length hl = min 500 (min (length base) (length target))
     \<and> (highlighted_html base target = Inr (concat hl @ ''...''))
         = (length base > length hl)
     \<and> (highlighted_html base target = Inr (concat hl))
         = (\<not> length base > length hl)
     \<and> (length base = 600 \<and> length target = 600
          \<longrightarrow> length hl = 500
            \<and> highlighted_html base target = Inr (concat hl @ ''...''))"
proof -
  let ?hl = "map (\<lambda>i. marker (base ! i) (target ! i)) [0..<compare_length base target]"
  have h: "highlighted base target = Inr ?hl"
    by (rule highlighted_eq)
  have n: "length ?hl = min 500 (min (length base) (length target))"
    by (simp add: compare_length_def)
  have n': "length ?hl = compare_length base target"
    by simp
  have t: "(highlighted_html base target = Inr (concat ?hl @ ''...''))
             = (length base > length ?hl)"
    unfolding n' by (simp add: highlighted_html_eq)
  have u: "(highlighted_html base target = Inr (concat ?hl))
             = (\<not> length base > length ?hl)"
    unfolding n' by (simp add: highlighted_html_eq)
  have p: "length base = 600 \<and> length target = 600
          \<longrightarrow> length ?hl = 500
            \<and> highlighted_html base target = Inr (concat ?hl @ ''...'')"
    using n t by auto
  from h n t u p show ?thesis by blast
qed

theorem diff_marker_count_witness:
  "length (replicate 600 (CHR ''A'')) = 600 \<and> length (replicate 600 (CHR ''C'')) = 600
   \<and> (\<exists>hl. highlighted (replicate 600 (CHR ''A'')) (replicate 600 (CHR ''C'')) = Inr hl
          \<and> length hl = 500
          \<and> highlighted_html (replicate 600 (CHR ''A'')) (replicate 600 (CHR ''C''))
              = Inr (concat hl @ ''...''))"
proof -
  from diff_marker_count [of "replicate 600 (CHR ''A'')" "replicate 600 (CHR ''C'')"]
  obtain hl where
    "highlighted (replicate 600 (CHR ''A'')) (replicate 600 (CHR ''C'')) = Inr hl"
    "length hl = 500"
    "highlighted_html (replicate 600 (CHR ''A'')) (replicate 600 (CHR ''C''))
       = Inr (concat hl @ ''...'')"
    by auto
  then show ?thesis by auto
qed

text \<open>
  Claim C8. At every compared position \<open>i < n\<close> the marker is a mismatch marker if and
  only if \<open>base[i] \<noteq> target[i]\<close>, a mismatch marker carries \<open>target[i]\<close>, and a match
  marker carries the character the two sequences share; identical sequences give match
  markers only.
\<close>

theorem diff_marker_at:
  "\<exists>hl. highlighted base target = Inr hl
     \<and> length hl = compare_length base target
     \<and> (\<forall>i < compare_length base target.
          (\<exists>c. hl ! i = mismatch_marker c) = (base ! i \<noteq> target ! i)
        \<and> (\<exists>c. hl ! i = match_marker c) = (base ! i = target ! i)
        \<and> (\<forall>c. hl ! i = mismatch_marker c \<longrightarrow> c = target ! i)
        \<and> (\<forall>c. hl ! i = match_marker c \<longrightarrow> c = target ! i \<and> c = base ! i))
     \<and> (base = target \<longrightarrow> hl = map match_marker (take (compare_length base target) target))"
proof -
  let ?n = "compare_length base target"
  let ?hl = "map (\<lambda>i. marker (base ! i) (target ! i)) [0..<?n]"
  have h: "highlighted base target = Inr ?hl"
    by (rule highlighted_eq)
  have n: "length ?hl = ?n"
    by simp
  have at: "(\<exists>c. ?hl ! i = mismatch_marker c) = (base ! i \<noteq> target ! i)
        \<and> (\<exists>c. ?hl ! i = match_marker c) = (base ! i = target ! i)
        \<and> (\<forall>c. ?hl ! i = mismatch_marker c \<longrightarrow> c = target ! i)
        \<and> (\<forall>c. ?hl ! i = match_marker c \<longrightarrow> c = target ! i \<and> c = base ! i)"
    if "i < ?n" for i
  proof (cases "base ! i = target ! i")
    case True
    with that have m: "?hl ! i = match_marker (target ! i)"
      by (simp add: marker_def)
    show ?thesis
      unfolding m using True mismatch_neq_match [of _ "target ! i"]
      by (auto dest: match_marker_inj simp: eq_commute [of "match_marker _" "mismatch_marker _"])
  next
    case False
    with that have m: "?hl ! i = mismatch_marker (target ! i)"
      by (simp add: marker_def)
    show ?thesis
      unfolding m using False mismatch_neq_match [of "target ! i"]
      by (auto dest: mismatch_marker_inj)
  qed
  have same: "?hl = map match_marker (take ?n target)" if "base = target"
  proof (rule nth_equalityI)
    show "length ?hl = length (map match_marker (take ?n target))"
      by (simp add: compare_length_def)
    show "?hl ! i = map match_marker (take ?n target) ! i" if "i < length ?hl" for i
      using that \<open>base = target\<close> by (simp add: marker_def compare_length_def)
  qed
  from h n at same show ?thesis by blast
qed

theorem diff_marker_at_witness:
  "3 < compare_length ''ACGTACGT'' ''ACGAACGT''
   \<and> ''ACGTACGT'' ! 3 \<noteq> ''ACGAACGT'' ! 3
   \<and> (\<exists>hl. highlighted ''ACGTACGT'' ''ACGAACGT'' = Inr hl
          \<and> length hl = 8
          \<and> (\<exists>c. hl ! 3 = mismatch_marker c)
          \<and> (\<forall>c. hl ! 3 = mismatch_marker c \<longrightarrow> c = CHR ''A''))
   \<and> highlighted ''ACGT'' ''ACGT'' = Inr (map match_marker ''ACGT'')"
proof -
  have n: "compare_length ''ACGTACGT'' ''ACGAACGT'' = 8" "compare_length ''ACGT'' ''ACGT'' = 4"
    by (simp_all add: compare_length_def)
  from diff_marker_at [of "''ACGTACGT''" "''ACGAACGT''"] obtain hl where
    h: "highlighted ''ACGTACGT'' ''ACGAACGT'' = Inr hl" "length hl = 8"
    and a: "\<forall>i < 8. (\<exists>c. hl ! i = mismatch_marker c) = (''ACGTACGT'' ! i \<noteq> ''ACGAACGT'' ! i)
        \<and> (\<forall>c. hl ! i = mismatch_marker c \<longrightarrow> c = ''ACGAACGT'' ! i)"
    unfolding n by blast
  have "(3::nat) < 8" by simp
  with a have "(\<exists>c. hl ! 3 = mismatch_marker c) = (''ACGTACGT'' ! 3 \<noteq> ''ACGAACGT'' ! 3)
        \<and> (\<forall>c. hl ! 3 = mismatch_marker c \<longrightarrow> c = ''ACGAACGT'' ! 3)"
    by blast
  then have a3: "(\<exists>c. hl ! 3 = mismatch_marker c)"
     "(\<forall>c. hl ! 3 = mismatch_marker c \<longrightarrow> c = CHR ''A'')"
    by simp_all
  from diff_marker_at [of "''ACGT''" "''ACGT''"]
  have s: "highlighted ''ACGT'' ''ACGT'' = Inr (map match_marker ''ACGT'')"
    unfolding n by auto
  from h a3 s n show ?thesis by auto
qed

text \<open>
  Claim C10. With \<open>n = min(500, len(base), len(target))\<close>, the characters carried by the
  \<open>n\<close> markers, concatenated in order with the emphasis markup left out, are exactly
  \<open>target[0:n]\<close>: every marker carries the target's character, also where the base has a
  different one.
\<close>

theorem diff_carries_target:
  "\<exists>hl. highlighted base target = Inr hl
     \<and> length hl = min 500 (min (length base) (length target))
     \<and> concat (map carried_text hl) = py_slice target 0 (int (length hl))
     \<and> concat (map carried_text hl) = take (length hl) target
     \<and> (\<forall>i < length hl. carried_text (hl ! i) = [target ! i])
     \<and> (\<forall>i < length hl. base ! i \<noteq> target ! i \<longrightarrow> carried_text (hl ! i) \<noteq> [base ! i])"
proof -
  let ?n = "compare_length base target"
  let ?hl = "map (\<lambda>i. marker (base ! i) (target ! i)) [0..<?n]"
  have h: "highlighted base target = Inr ?hl"
    by (rule highlighted_eq)
  have n: "length ?hl = min 500 (min (length base) (length target))"
    by (simp add: compare_length_def)
  have le: "?n \<le> length target"
    by (simp add: compare_length_def)
  have "concat (map carried_text ?hl) = map (\<lambda>i. target ! i) [0..<?n]"
    by (simp add: comp_def carried_text_marker concat_map_singleton)
  also have "\<dots> = take ?n target"
    using le by (intro nth_equalityI) simp_all
  finally have c: "concat (map carried_text ?hl) = take (length ?hl) target"
    by simp
  have "py_slice target 0 (int (length ?hl)) = take (length ?hl) target"
    using le py_slice_in_bounds(1) [of 0 "int ?n" target] by simp
  with c have s: "concat (map carried_text ?hl) = py_slice target 0 (int (length ?hl))"
    by simp
  have e: "\<forall>i < length ?hl. carried_text (?hl ! i) = [target ! i]"
    by (simp add: carried_text_marker)
  then have d: "\<forall>i < length ?hl. base ! i \<noteq> target ! i
        \<longrightarrow> carried_text (?hl ! i) \<noteq> [base ! i]"
    by (simp add: carried_text_marker)
  from h n s c e d show ?thesis by blast
qed

theorem diff_carries_target_witness:
  "\<exists>hl. highlighted ''ACGTACGT'' ''ACGAACG'' = Inr hl
     \<and> length hl = 7 \<and> 3 < length hl
     \<and> ''ACGTACGT'' ! 3 \<noteq> ''ACGAACG'' ! 3
     \<and> concat (map carried_text hl) = ''ACGAACG''
     \<and> carried_text (hl ! 3) = ''A''"
  using diff_carries_target [of "''ACGTACGT''" "''ACGAACG''"]
  by auto

end
